theory Spec2Isabelle
  imports Main
begin

section \<open>JavaScript values\<close>

text \<open>
  The worker in \<^verbatim>\<open>src/index.ts\<close> reads three values whose shape it does not control:
  the request body (\<^verbatim>\<open>request.json()\<close>), the result of \<^verbatim>\<open>env.AI.run\<close> and the caught
  error. All three are modelled as JSON-like values. Strings are lists of 8-bit
  characters (code units below 256); numbers are the integer-valued ones, which is all
  the code compares against (2016 and 2017); how a number is printed is left to a
  parameter. An object is its list of own properties,
  the first binding of a key being the one that is read.
\<close>

datatype jsval =
    JUndefined
  | JNull
  | JBool bool
  | JNum int
  | JStr string
  | JArr "jsval list"
  | JObj "(string \<times> jsval) list"

text \<open>Every exception raised by the modelled code is a \<^verbatim>\<open>TypeError\<close>.\<close>

datatype error = TypeError

text \<open>\<^verbatim>\<open>v == null\<close>: reading a property of such a value throws.\<close>

fun nullish :: "jsval \<Rightarrow> bool" where
  "nullish JUndefined = True"
| "nullish JNull = True"
| "nullish _ = False"

text \<open>
  \<^verbatim>\<open>v.k\<close> for a value that is not null or undefined and a name \<open>k\<close> that is no
  built-in property of arrays, strings, numbers, booleans or \<^verbatim>\<open>Object.prototype\<close>.
  The names read by the code are role, content, output, type, text, response, choices,
  message, result, error and code. The caller checks \<^const>\<open>nullish\<close> first.
\<close>

fun get :: "jsval \<Rightarrow> string \<Rightarrow> jsval" where
  "get (JObj kvs) k = (case map_of kvs k of Some v \<Rightarrow> v | None \<Rightarrow> JUndefined)"
| "get _ k = JUndefined"

text \<open>\<^verbatim>\<open>v[0]\<close> for a value that is not null or undefined.\<close>

fun get0 :: "jsval \<Rightarrow> jsval" where
  "get0 (JArr xs) = (case xs of [] \<Rightarrow> JUndefined | x # _ \<Rightarrow> x)"
| "get0 (JStr s) = (case s of [] \<Rightarrow> JUndefined | c # _ \<Rightarrow> JStr [c])"
| "get0 (JObj kvs) = (case map_of kvs ''0'' of Some v \<Rightarrow> v | None \<Rightarrow> JUndefined)"
| "get0 _ = JUndefined"

text \<open>Optional chaining \<^verbatim>\<open>v?.k\<close>.\<close>

definition opt_get :: "jsval \<Rightarrow> string \<Rightarrow> jsval" where
  "opt_get v k = (if nullish v then JUndefined else get v k)"

text \<open>Truthiness, as tested by \<^verbatim>\<open>if (v)\<close>, \<^verbatim>\<open>v && ...\<close>, \<^verbatim>\<open>!v\<close> and \<^verbatim>\<open>Boolean(v)\<close>.\<close>

fun truthy :: "jsval \<Rightarrow> bool" where
  "truthy JUndefined = False"
| "truthy JNull = False"
| "truthy (JBool b) = b"
| "truthy (JNum n) = (n \<noteq> 0)"
| "truthy (JStr s) = (s \<noteq> [])"
| "truthy (JArr xs) = True"
| "truthy (JObj kvs) = True"

text \<open>\<^verbatim>\<open>typeof v === "string"\<close>, \<^verbatim>\<open>typeof v === "object"\<close> and \<^verbatim>\<open>Array.isArray(v)\<close>.\<close>

fun is_string :: "jsval \<Rightarrow> bool" where
  "is_string (JStr s) = True"
| "is_string _ = False"

fun typeof_object :: "jsval \<Rightarrow> bool" where
  "typeof_object JNull = True"
| "typeof_object (JArr xs) = True"
| "typeof_object (JObj kvs) = True"
| "typeof_object _ = False"

fun isArray :: "jsval \<Rightarrow> bool" where
  "isArray (JArr xs) = True"
| "isArray _ = False"

fun items :: "jsval \<Rightarrow> jsval list" where
  "items (JArr xs) = xs"
| "items _ = []"

fun str_of :: "jsval \<Rightarrow> string" where
  "str_of (JStr s) = s"
| "str_of _ = []"

subsection \<open>Conversion to a string in a template literal\<close>

text \<open>
  The decimal digits of an integer. This is what \<^verbatim>\<open>Number.prototype.toString\<close> gives for an
  integer of magnitude below 2 to the 53; above, JavaScript prints the shortest digits that
  read back as the same double. The examples, which hold small numbers only, use it as
  the number conversion.
\<close>

fun show_nat :: "nat \<Rightarrow> string" where
  "show_nat n =
     (if n < 10 then [''0123456789'' ! n]
      else show_nat (n div 10) @ [''0123456789'' ! (n mod 10)])"

declare show_nat.simps [simp del]

definition decimal :: "int \<Rightarrow> string" where
  "decimal n = (if n < 0 then CHR ''-'' # show_nat (nat (- n)) else show_nat (nat n))"

text \<open>\<^verbatim>\<open>Array.prototype.join\<close> with the default separator, over converted elements.\<close>

fun join_results :: "(error + string) list \<Rightarrow> error + string" where
  "join_results [] = Inr []"
| "join_results [r] = r"
| "join_results (r # rs) =
     (case r of
        Inl e \<Rightarrow> Inl e
      | Inr s \<Rightarrow> (case join_results rs of Inl e \<Rightarrow> Inl e | Inr u \<Rightarrow> Inr (s @ '','' @ u)))"

text \<open>
  \<^verbatim>\<open>`${v}`\<close>. A string is itself; undefined, null and the booleans are their names. A
  number converts through \<^verbatim>\<open>Number.prototype.toString\<close>, the parameter \<open>num\<close>, which
  never throws. An array converts through \<^verbatim>\<open>join\<close>, which writes null and undefined
  elements as the empty string. A plain object converts through
  \<^verbatim>\<open>Object.prototype.toString\<close>, unless an own property named \<^verbatim>\<open>toString\<close> shadows it:
  a JSON value is never callable and \<^verbatim>\<open>valueOf\<close> gives back the object, so the
  conversion throws.
\<close>

fun to_string :: "(int \<Rightarrow> string) \<Rightarrow> jsval \<Rightarrow> error + string" where
  "to_string num JUndefined = Inr ''undefined''"
| "to_string num JNull = Inr ''null''"
| "to_string num (JBool b) = Inr (if b then ''true'' else ''false'')"
| "to_string num (JNum n) = Inr (num n)"
| "to_string num (JStr s) = Inr s"
| "to_string num (JArr xs) =
     join_results (map (\<lambda>x. if nullish x then Inr [] else to_string num x) xs)"
| "to_string num (JObj kvs) =
     (if ''toString'' \<in> fst ` set kvs then Inl TypeError else Inr ''[object Object]'')"

subsection \<open>The regular expressions of the source\<close>

text \<open>
  Case folding of \<^verbatim>\<open>/.../i\<close> on the characters of the pattern used by the code:
  only the letters A to Z have a case variant that is a pattern character.
\<close>

definition ascii_lower :: "char \<Rightarrow> char" where
  "ascii_lower c =
     (case map_of (zip ''ABCDEFGHIJKLMNOPQRSTUVWXYZ'' ''abcdefghijklmnopqrstuvwxyz'') c of
        Some l \<Rightarrow> l
      | None \<Rightarrow> c)"

fun ci_prefix :: "string \<Rightarrow> string \<Rightarrow> bool" where
  "ci_prefix [] s = True"
| "ci_prefix (p # ps) [] = False"
| "ci_prefix (p # ps) (c # cs) = (ascii_lower p = ascii_lower c \<and> ci_prefix ps cs)"

text \<open>\<^verbatim>\<open>/pat/i.test(s)\<close> for a pattern of literal characters.\<close>

fun ci_test :: "string \<Rightarrow> string \<Rightarrow> bool" where
  "ci_test pat [] = ci_prefix pat []"
| "ci_test pat (c # cs) = (ci_prefix pat (c # cs) \<or> ci_test pat cs)"

section \<open>Configuration constants\<close>

definition AI_GATEWAY_ID :: string where
  "AI_GATEWAY_ID = ''new-gateway''"

definition SYSTEM_PROMPT :: string where
  "SYSTEM_PROMPT =
     ''You are a helpful, friendly assistant. Provide concise and accurate responses.''"

definition SAFETY_SHIM :: string where
  "SAFETY_SHIM =
     ''If a user asks for illegal, violent, or harmful instructions, refuse briefly and suggest safer, educational alternatives.''"

section \<open>buildModelInput\<close>

text \<open>
  A history entry is any value: the handler passes \<^verbatim>\<open>raw.messages\<close> on as soon as it is
  an array. A well-typed \<^verbatim>\<open>ChatMessage\<close> is an object with a string role and a string
  content. The block set is a \<^verbatim>\<open>Set<string>\<close>. The first argument of the functions
  below is the conversion of numbers that the template literals of lines 123 and 125 use.
\<close>

definition chat_message :: "string \<Rightarrow> string \<Rightarrow> jsval" where
  "chat_message r c = JObj [(''role'', JStr r), (''content'', JStr c)]"

record model_input =
  instructions :: string
  input :: jsval

definition newline2 :: string where
  "newline2 = [CHR 0x0A, CHR 0x0A]"

definition looksLikeGuardrailNotice :: "jsval \<Rightarrow> bool" where
  "looksLikeGuardrailNotice m \<longleftrightarrow>
     get m ''role'' = JStr ''assistant'' \<and>
     is_string (get m ''content'') \<and>
     ci_test ''blocked by guardrails'' (str_of (get m ''content''))"

text \<open>
  One iteration of the cleaning loop (lines 81 to 106): \<open>cleaned\<close> is the accumulator,
  \<open>m\<close> is \<^verbatim>\<open>raw[i]\<close>. Reading \<^verbatim>\<open>m.role\<close> throws when the entry is null or undefined.
\<close>

definition clean_step :: "string set \<Rightarrow> jsval list \<Rightarrow> jsval \<Rightarrow> error + jsval list" where
  "clean_step blockedUserContents cleaned m =
     (if nullish m then Inl TypeError
      else if get m ''role'' = JStr ''system'' then Inr cleaned
      else if get m ''role'' = JStr ''user'' \<and> is_string (get m ''content'') \<and>
              str_of (get m ''content'') \<in> blockedUserContents
        then Inr cleaned
      else if looksLikeGuardrailNotice m then
        (if cleaned \<noteq> [] then
           (if nullish (last cleaned) then Inl TypeError
            else if get (last cleaned) ''role'' = JStr ''user'' then Inr (butlast cleaned)
            else Inr cleaned)
         else Inr cleaned)
      else Inr (cleaned @ [m]))"

fun clean_loop :: "string set \<Rightarrow> jsval list \<Rightarrow> jsval list \<Rightarrow> error + jsval list" where
  "clean_loop blockedUserContents cleaned [] = Inr cleaned"
| "clean_loop blockedUserContents cleaned (m # ms) =
     (case clean_step blockedUserContents cleaned m of
        Inl e \<Rightarrow> Inl e
      | Inr cleaned' \<Rightarrow> clean_loop blockedUserContents cleaned' ms)"

text \<open>Lines 109 and 110: \<^verbatim>\<open>cleaned.slice(cleaned.length - 16)\<close> when there are more than 16.\<close>

definition windowed :: "jsval list \<Rightarrow> jsval list" where
  "windowed cleaned =
     (if length cleaned > 16 then drop (length cleaned - 16) cleaned else cleaned)"

text \<open>The callback of \<^verbatim>\<open>map\<close> at lines 121 to 128.\<close>

definition render :: "(int \<Rightarrow> string) \<Rightarrow> jsval \<Rightarrow> error + string" where
  "render num m =
     (if nullish m then Inl TypeError
      else if get m ''role'' = JStr ''user'' then
        (case to_string num (get m ''content'') of
           Inl e \<Rightarrow> Inl e | Inr s \<Rightarrow> Inr (''User: '' @ s))
      else if get m ''role'' = JStr ''assistant'' then
        (case to_string num (get m ''content'') of
           Inl e \<Rightarrow> Inl e | Inr s \<Rightarrow> Inr (''Assistant: '' @ s))
      else Inr [])"

text \<open>\<^verbatim>\<open>windowed.map(...)\<close>: the first callback that throws ends the call.\<close>

fun render_all :: "(int \<Rightarrow> string) \<Rightarrow> jsval list \<Rightarrow> error + string list" where
  "render_all num [] = Inr []"
| "render_all num (m # ms) =
     (case render num m of
        Inl e \<Rightarrow> Inl e
      | Inr s \<Rightarrow> (case render_all num ms of Inl e \<Rightarrow> Inl e | Inr ss \<Rightarrow> Inr (s # ss)))"

text \<open>\<^verbatim>\<open>strs.join(sep)\<close> on an array of strings.\<close>

fun join :: "string \<Rightarrow> string list \<Rightarrow> string" where
  "join sep [] = []"
| "join sep [s] = s"
| "join sep (s # ss) = s @ sep @ join sep ss"

text \<open>Lines 115 to 132: the input built from the windowed entries.\<close>

definition format_input :: "(int \<Rightarrow> string) \<Rightarrow> jsval list \<Rightarrow> error + jsval" where
  "format_input num w =
     (if length w = 1 \<and> nullish (w ! 0) then Inl TypeError
      else if length w = 1 \<and> get (w ! 0) ''role'' = JStr ''user'' then Inr (get (w ! 0) ''content'')
      else
        (case render_all num w of
           Inl e \<Rightarrow> Inl e
         | Inr strs \<Rightarrow> Inr (JStr (join newline2 (filter (\<lambda>s. s \<noteq> []) strs)))))"

definition buildModelInput ::
  "(int \<Rightarrow> string) \<Rightarrow> jsval list \<Rightarrow> string set \<Rightarrow> error + model_input" where
  "buildModelInput num raw blockedUserContents =
     (case clean_loop blockedUserContents [] raw of
        Inl e \<Rightarrow> Inl e
      | Inr cleaned \<Rightarrow>
          (case format_input num (windowed cleaned) of
             Inl e \<Rightarrow> Inl e
           | Inr inp \<Rightarrow>
               Inr \<lparr> instructions = SYSTEM_PROMPT @ newline2 @ ''Safety: '' @ SAFETY_SHIM,
                     input = inp \<rparr>))"

section \<open>handleChatRequest: the text of the model's response\<close>

text \<open>
  \<^verbatim>\<open>arr.find((item) => item.type === t)\<close>: the first element whose type is \<open>t\<close>, or
  undefined. The callback reads \<^verbatim>\<open>item.type\<close> of every element up to the one found.
\<close>

fun find_type :: "string \<Rightarrow> jsval list \<Rightarrow> error + jsval" where
  "find_type t [] = Inr JUndefined"
| "find_type t (item # rest) =
     (if nullish item then Inl TypeError
      else if get item ''type'' = JStr t then Inr item
      else find_type t rest)"

text \<open>
  Lines 225 to 236: the value of \<^verbatim>\<open>responseText\<close> after the structured path, which
  starts as the empty string and is assigned at most once.
\<close>

definition structured_text :: "jsval \<Rightarrow> error + jsval" where
  "structured_text resp =
     (if truthy (get resp ''output'') \<and> isArray (get resp ''output'') then
        (case find_type ''message'' (items (get resp ''output'')) of
           Inl e \<Rightarrow> Inl e
         | Inr messageOutput \<Rightarrow>
             (if truthy messageOutput \<and> truthy (get messageOutput ''content'') \<and>
                 isArray (get messageOutput ''content'') then
                (case find_type ''output_text'' (items (get messageOutput ''content'')) of
                   Inl e \<Rightarrow> Inl e
                 | Inr textContent \<Rightarrow>
                     (if truthy textContent \<and> truthy (get textContent ''text'')
                      then Inr (get textContent ''text'')
                      else Inr (JStr [])))
              else Inr (JStr [])))
      else Inr (JStr []))"

definition sentinel :: string where
  "sentinel = ''Error: Could not parse AI response''"

text \<open>Lines 239 to 253: the fallbacks, tried when the structured path left nothing.\<close>

definition fallback_text :: "jsval \<Rightarrow> jsval" where
  "fallback_text resp =
     (if truthy (get resp ''response'') then get resp ''response''
      else if truthy (get resp ''content'') then get resp ''content''
      else if truthy (get resp ''choices'') \<and>
              truthy (opt_get (opt_get (get0 (get resp ''choices'')) ''message'') ''content'')
        then get (get (get0 (get resp ''choices'')) ''message'') ''content''
      else if truthy (get resp ''result'') \<and> truthy (get (get resp ''result'') ''response'')
        then get (get resp ''result'') ''response''
      else JStr sentinel)"

text \<open>
  Lines 215 to 254: the value of \<^verbatim>\<open>responseText\<close> that the handler puts in its
  response, or the exception that takes the handler to its catch block.
\<close>

definition extract_responseText :: "jsval \<Rightarrow> error + jsval" where
  "extract_responseText aiResponse =
     (if is_string aiResponse then Inr aiResponse
      else if truthy aiResponse \<and> typeof_object aiResponse then
        (case structured_text aiResponse of
           Inl e \<Rightarrow> Inl e
         | Inr responseText \<Rightarrow>
             (if \<not> truthy responseText then Inr (fallback_text aiResponse)
              else Inr responseText))
      else Inr (JStr []))"

section \<open>handleChatRequest: the catch block\<close>

record response =
  status :: nat
  headers :: "(string \<times> string) list"
  body :: "(string \<times> jsval) list"

text \<open>The characters that \<^verbatim>\<open>.\<close> does not match: line feed and carriage return.\<close>

definition line_terminator :: "char \<Rightarrow> bool" where
  "line_terminator c \<longleftrightarrow> c = CHR 0x0A \<or> c = CHR 0x0D"

text \<open>The longest prefix of \<open>s\<close> that ends with a closing brace, if there is one.\<close>

definition upto_last_brace :: "string \<Rightarrow> string option" where
  "upto_last_brace s =
     (if CHR ''}'' \<in> set s then Some (rev (dropWhile (\<lambda>c. c \<noteq> CHR ''}'') (rev s)))
      else None)"

text \<open>
  \<^verbatim>\<open>s.match(/\{.*\}/)\<close>, giving \<^verbatim>\<open>jsonMatch[0]\<close>: from the first opening brace that
  has a closing brace after it on its line, to the last closing brace of that line.
\<close>

fun match_braces :: "string \<Rightarrow> string option" where
  "match_braces [] = None"
| "match_braces (c # cs) =
     (if c = CHR ''{'' then
        (case upto_last_brace (takeWhile (\<lambda>d. \<not> line_terminator d) cs) of
           Some rest \<Rightarrow> Some (c # rest)
         | None \<Rightarrow> match_braces cs)
      else match_braces cs)"

text \<open>
  Lines 275 to 289: the value of \<^verbatim>\<open>gatewayError\<close>. \<^verbatim>\<open>JSON.parse\<close> is a parameter:
  \<open>json_parse s\<close> is the parsed value, or \<open>None\<close> when the parser throws. That
  exception, and the one of reading \<^verbatim>\<open>parsed.error\<close> when the parsed value is null, are
  caught at line 286 and leave \<^verbatim>\<open>gatewayError\<close> null.
\<close>

definition gatewayError_of :: "(string \<Rightarrow> jsval option) \<Rightarrow> jsval \<Rightarrow> jsval" where
  "gatewayError_of json_parse errorObj =
     (if truthy (get errorObj ''message'') \<and> is_string (get errorObj ''message'') then
        (case match_braces (str_of (get errorObj ''message'')) of
           None \<Rightarrow> JNull
         | Some jsonMatch \<Rightarrow>
             (case json_parse jsonMatch of
                None \<Rightarrow> JNull
              | Some parsed \<Rightarrow>
                  (if nullish parsed then JNull
                   else if truthy (get parsed ''error'') \<and> isArray (get parsed ''error'')
                     then get0 (get parsed ''error'')
                   else JNull)))
      else JNull)"

text \<open>The two variants of each \<^verbatim>\<open>details\<close> text (lines 298, 299, 313 and 314).\<close>

definition prompt_details_gateway :: string where
  "prompt_details_gateway =
     ''Your message was blocked by your organization's AI Gateway security policy. This may be due to content that violates safety guidelines including: hate speech, violence, self-harm, explicit content, or other harmful material.''"

definition prompt_details_direct :: string where
  "prompt_details_direct = ''Your message was blocked due to security policy.''"

definition response_details_gateway :: string where
  "response_details_gateway =
     ''The AI's response was blocked by your organization's AI Gateway security policy. The model attempted to generate content that violates safety guidelines. Please rephrase your question or try a different topic.''"

definition response_details_direct :: string where
  "response_details_direct = ''The AI's response was blocked due to security policy.''"

text \<open>
  The responses of lines 293 to 306 and 308 to 321. A string is truthy when it is not
  empty: \<^verbatim>\<open>AI_GATEWAY_ID ? a : b\<close> and \<^verbatim>\<open>!!AI_GATEWAY_ID\<close>.
\<close>

definition prompt_blocked_response :: response where
  "prompt_blocked_response =
     \<lparr> status = 400,
       headers = [(''Content-Type'', ''application/json'')],
       body =
         [(''error'', JStr ''Prompt Blocked by Security Policy''),
          (''errorType'', JStr ''prompt_blocked''),
          (''details'', JStr
             (if AI_GATEWAY_ID \<noteq> [] then prompt_details_gateway
              else prompt_details_direct)),
          (''usingGateway'', JBool (AI_GATEWAY_ID \<noteq> []))] \<rparr>"

definition response_blocked_response :: response where
  "response_blocked_response =
     \<lparr> status = 400,
       headers = [(''Content-Type'', ''application/json'')],
       body =
         [(''error'', JStr ''Response Blocked by Security Policy''),
          (''errorType'', JStr ''response_blocked''),
          (''details'', JStr
             (if AI_GATEWAY_ID \<noteq> [] then response_details_gateway
              else response_details_direct)),
          (''usingGateway'', JBool (AI_GATEWAY_ID \<noteq> []))] \<rparr>"

text \<open>The response of lines 326 to 329.\<close>

definition generic_response :: response where
  "generic_response =
     \<lparr> status = 500,
       headers = [(''content-type'', ''application/json'')],
       body = [(''error'', JStr ''Failed to process request'')] \<rparr>"

text \<open>Lines 267 to 330: the response built from the caught value.\<close>

definition handleChatRequest_catch :: "(string \<Rightarrow> jsval option) \<Rightarrow> jsval \<Rightarrow> response" where
  "handleChatRequest_catch json_parse error =
     (if truthy error \<and> typeof_object error then
        (let gatewayError = gatewayError_of json_parse error in
         if truthy gatewayError \<and> get gatewayError ''code'' = JNum 2016
           then prompt_blocked_response
         else if truthy gatewayError \<and> get gatewayError ''code'' = JNum 2017
           then response_blocked_response
         else generic_response)
      else generic_response)"

section \<open>Properties of buildModelInput\<close>

subsection \<open>Vocabulary of the specification\<close>

definition system_message :: "jsval \<Rightarrow> bool" where
  "system_message m \<longleftrightarrow> get m ''role'' = JStr ''system''"

definition blocked_user_message :: "string set \<Rightarrow> jsval \<Rightarrow> bool" where
  "blocked_user_message blocked m \<longleftrightarrow>
     get m ''role'' = JStr ''user'' \<and> (\<exists>c \<in> blocked. get m ''content'' = JStr c)"

text \<open>
  A string contains a pattern case-insensitively when some substring of it equals the
  pattern up to the case of the letters A to Z.
\<close>

definition ci_contains :: "string \<Rightarrow> string \<Rightarrow> bool" where
  "ci_contains pat s \<longleftrightarrow>
     (\<exists>pre mid post. s = pre @ mid @ post \<and> map ascii_lower mid = map ascii_lower pat)"

definition guardrail_notice :: "jsval \<Rightarrow> bool" where
  "guardrail_notice m \<longleftrightarrow>
     get m ''role'' = JStr ''assistant'' \<and>
     (\<exists>s. get m ''content'' = JStr s \<and> ci_contains ''blocked by guardrails'' s)"






text \<open>The input of a result, or the exception.\<close>

definition input_of :: "error + model_input \<Rightarrow> error + jsval" where
  "input_of res = (case res of Inl e \<Rightarrow> Inl e | Inr r \<Rightarrow> Inr (input r))"

definition other_role :: "jsval \<Rightarrow> bool" where
  "other_role m \<longleftrightarrow>
     \<not> nullish m \<and> get m ''role'' \<noteq> JStr ''system'' \<and> get m ''role'' \<noteq> JStr ''user'' \<and>
     get m ''role'' \<noteq> JStr ''assistant''"


text \<open>The history of the windowing example: 20 alternating user and assistant entries.\<close>

definition history20 :: "jsval list" where
  "history20 =
     [chat_message ''user'' ''q01'', chat_message ''assistant'' ''a02'',
      chat_message ''user'' ''q03'', chat_message ''assistant'' ''a04'',
      chat_message ''user'' ''q05'', chat_message ''assistant'' ''a06'',
      chat_message ''user'' ''q07'', chat_message ''assistant'' ''a08'',
      chat_message ''user'' ''q09'', chat_message ''assistant'' ''a10'',
      chat_message ''user'' ''q11'', chat_message ''assistant'' ''a12'',
      chat_message ''user'' ''q13'', chat_message ''assistant'' ''a14'',
      chat_message ''user'' ''q15'', chat_message ''assistant'' ''a16'',
      chat_message ''user'' ''q17'', chat_message ''assistant'' ''a18'',
      chat_message ''user'' ''q19'', chat_message ''assistant'' ''a20'']"

subsection \<open>Vocabulary for the response text and the caught error\<close>

text \<open>A value that \<^verbatim>\<open>typeof\<close> calls an object and that is not null.\<close>

definition is_object :: "jsval \<Rightarrow> bool" where
  "is_object v \<longleftrightarrow> truthy v \<and> typeof_object v"

text \<open>
  The structured path in the words of the specification: the first element of the output
  list whose type is message, then the first element of its content list whose type is
  output_text, then its text.
\<close>

definition structured_candidate :: "jsval \<Rightarrow> jsval" where
  "structured_candidate result =
     (case find (\<lambda>item. get item ''type'' = JStr ''message'') (items (get result ''output'')) of
        None \<Rightarrow> JUndefined
      | Some msg \<Rightarrow>
          (case find (\<lambda>item. get item ''type'' = JStr ''output_text'')
                  (items (get msg ''content'')) of
             None \<Rightarrow> JUndefined
           | Some part \<Rightarrow> get part ''text''))"

text \<open>
  The candidates in the order of the specification: the structured path, then
  \<^verbatim>\<open>result.response\<close>, \<^verbatim>\<open>result.content\<close>, \<^verbatim>\<open>result.choices[0].message.content\<close> and
  \<^verbatim>\<open>result.result.response\<close>, a path through a missing field being undefined.
\<close>

definition candidates :: "jsval \<Rightarrow> jsval list" where
  "candidates result =
     [structured_candidate result,
      get result ''response'',
      get result ''content'',
      opt_get (opt_get (get0 (get result ''choices'')) ''message'') ''content'',
      opt_get (get result ''result'') ''response'']"

text \<open>The first candidate that is truthy, and the sentinel when there is none.\<close>

definition resolution :: "jsval \<Rightarrow> jsval" where
  "resolution result =
     (case find truthy (candidates result) of Some v \<Rightarrow> v | None \<Rightarrow> JStr sentinel)"

text \<open>
  The search of a list for its first element of type \<open>t\<close> meets a null or undefined
  element: one stands before the first element of type \<open>t\<close>, or anywhere in the list when
  there is no such element.
\<close>

definition meets_null :: "string \<Rightarrow> jsval list \<Rightarrow> bool" where
  "meets_null t xs \<longleftrightarrow>
     (\<exists>x \<in> set (takeWhile (\<lambda>item. get item ''type'' \<noteq> JStr t) xs). nullish x)"

text \<open>
  The searches of the structured path meet a null or undefined element: the search of the
  output list for the message element, or the search of that element's content list for
  the output_text element.
\<close>

definition scan_fails :: "jsval \<Rightarrow> bool" where
  "scan_fails result \<longleftrightarrow>
     meets_null ''message'' (items (get result ''output'')) \<or>
     (case find (\<lambda>item. get item ''type'' = JStr ''message'') (items (get result ''output'')) of
        None \<Rightarrow> False
      | Some msg \<Rightarrow> meets_null ''output_text'' (items (get msg ''content'')))"

text \<open>
  The caught value carries the gateway code \<open>n\<close>: its message is a string in which
  \<^verbatim>\<open>/\{.*\}/\<close> has a match, the match parses, the parsed value has an error field that
  is an array, and the first element of that array has the code \<open>n\<close>.
\<close>

definition carries_code :: "(string \<Rightarrow> jsval option) \<Rightarrow> jsval \<Rightarrow> int \<Rightarrow> bool" where
  "carries_code json_parse error n \<longleftrightarrow>
     (\<exists>msg jsonMatch parsed first rest.
        get error ''message'' = JStr msg \<and> match_braces msg = Some jsonMatch \<and>
        json_parse jsonMatch = Some parsed \<and> get parsed ''error'' = JArr (first # rest) \<and>
        get first ''code'' = JNum n)"

text \<open>
  The JSON text of a prompt block and the value \<^verbatim>\<open>JSON.parse\<close> gives for it.
\<close>

definition blocked_json :: string where
  "blocked_json = ''{\"error\":[{\"code\":2016,\"message\":\"x\"}]}''"

definition blocked_value :: jsval where
  "blocked_value =
     JObj [(''error'', JArr [JObj [(''code'', JNum 2016), (''message'', JStr ''x'')]])]"

text \<open>
  \<^verbatim>\<open>JSON.parse\<close> on the texts of the examples below: it parses \<^const>\<open>blocked_json\<close>; the
  other texts it is applied to there are not JSON, so that the parser throws.
\<close>

definition sample_parse :: "string \<Rightarrow> jsval option" where
  "sample_parse s = (if s = blocked_json then Some blocked_value else None)"

subsection \<open>The cleaning loop\<close>

lemma get_nullish: "nullish m \<Longrightarrow> get m k = JUndefined"
  by (cases m) simp_all

lemma is_string_iff: "is_string v \<longleftrightarrow> (\<exists>s. v = JStr s)"
  by (cases v) simp_all

lemma blocked_user_message_code:
  "blocked_user_message blocked m \<longleftrightarrow>
     get m ''role'' = JStr ''user'' \<and> is_string (get m ''content'') \<and>
     str_of (get m ''content'') \<in> blocked"
  by (auto simp: blocked_user_message_def is_string_iff)

lemma clean_step_dropped:
  assumes "system_message m \<or> blocked_user_message blocked m"
  shows "clean_step blocked cleaned m = Inr cleaned"
proof -
  have "\<not> nullish m"
    using assms by (auto simp: system_message_def blocked_user_message_def get_nullish)
  then show ?thesis
    using assms by (auto simp: clean_step_def system_message_def blocked_user_message_code)
qed

lemma clean_loop_filter_dropped:
  "clean_loop blocked cleaned
     (filter (\<lambda>m. \<not> system_message m \<and> \<not> blocked_user_message blocked m) raw) =
   clean_loop blocked cleaned raw"
proof (induction raw arbitrary: cleaned)
  case Nil
  show ?case by simp
next
  case (Cons m raw)
  show ?case
  proof (cases "system_message m \<or> blocked_user_message blocked m")
    case True
    then show ?thesis
      using Cons.IH [of cleaned] clean_step_dropped [OF True, of cleaned] by auto
  next
    case False
    then show ?thesis
      using Cons.IH by (simp split: sum.splits)
  qed
qed

text \<open>What an iteration can leave in the accumulator.\<close>

lemma clean_step_elems:
  assumes "clean_step blocked cleaned m = Inr cleaned'" and "x \<in> set cleaned'"
  shows "x \<in> set cleaned \<or>
         (x = m \<and> \<not> nullish m \<and> \<not> system_message m \<and> \<not> blocked_user_message blocked m \<and>
          \<not> looksLikeGuardrailNotice m)"
  using assms
  by (auto simp: clean_step_def system_message_def blocked_user_message_code
           split: if_splits dest: in_set_butlastD)

lemma clean_loop_elems:
  assumes "clean_loop blocked cleaned raw = Inr cleaned'" and "x \<in> set cleaned'"
  shows "x \<in> set cleaned \<or>
         (x \<in> set raw \<and> \<not> nullish x \<and> \<not> system_message x \<and>
          \<not> blocked_user_message blocked x \<and> \<not> looksLikeGuardrailNotice x)"
  using assms
proof (induction raw arbitrary: cleaned)
  case Nil
  then show ?case by simp
next
  case (Cons m raw)
  from Cons.prems(1) obtain c where
    step: "clean_step blocked cleaned m = Inr c" and
    rest: "clean_loop blocked c raw = Inr cleaned'"
    by (auto split: sum.splits)
  from Cons.IH [OF rest Cons.prems(2)] clean_step_elems [OF step]
  show ?case by auto
qed

lemma set_windowed: "set (windowed cleaned) \<subseteq> set cleaned"
  by (auto simp: windowed_def dest: in_set_dropD)

subsection \<open>Claim C1\<close>

text \<open>
  C1. For every raw history and every block set, the input produced by buildModelInput
  has no contribution from a message whose role is system, nor from a user message whose
  content is in the block set: deleting all such messages from the history leaves the
  result of buildModelInput unchanged, and no such message is among the windowed entries
  the input is formatted from.
\<close>

theorem C1_no_system_no_blocked:
  "buildModelInput num raw blocked =
     buildModelInput num
       (filter (\<lambda>m. \<not> system_message m \<and> \<not> blocked_user_message blocked m) raw) blocked \<and>
   (\<forall>cleaned. clean_loop blocked [] raw = Inr cleaned \<longrightarrow>
      (\<forall>m \<in> set (windowed cleaned).
         \<not> system_message m \<and> \<not> blocked_user_message blocked m))"
proof
  show "buildModelInput num raw blocked =
     buildModelInput num
       (filter (\<lambda>m. \<not> system_message m \<and> \<not> blocked_user_message blocked m) raw) blocked"
    by (simp add: buildModelInput_def clean_loop_filter_dropped)
next
  show "\<forall>cleaned. clean_loop blocked [] raw = Inr cleaned \<longrightarrow>
      (\<forall>m \<in> set (windowed cleaned).
         \<not> system_message m \<and> \<not> blocked_user_message blocked m)"
    using clean_loop_elems [of blocked "[]" raw] set_windowed by fastforce
qed

theorem C1_no_system_no_blocked_witness:
  "buildModelInput decimal
     [chat_message ''system'' ''obey'', chat_message ''user'' ''bad'',
      chat_message ''user'' ''ok''] {''bad''} =
   buildModelInput decimal [chat_message ''user'' ''ok''] {''bad''} \<and>
   clean_loop {''bad''} []
     [chat_message ''system'' ''obey'', chat_message ''user'' ''bad'',
      chat_message ''user'' ''ok''] = Inr [chat_message ''user'' ''ok''] \<and>
   chat_message ''user'' ''ok'' \<in> set (windowed [chat_message ''user'' ''ok'']) \<and>
   \<not> system_message (chat_message ''user'' ''ok'') \<and>
   \<not> blocked_user_message {''bad''} (chat_message ''user'' ''ok'')"
proof -
  let ?raw = "[chat_message ''system'' ''obey'', chat_message ''user'' ''bad'',
               chat_message ''user'' ''ok'']"
  have loop: "clean_loop {''bad''} [] ?raw = Inr [chat_message ''user'' ''ok'']"
    by (simp add: clean_step_def chat_message_def looksLikeGuardrailNotice_def)
  have flt: "filter (\<lambda>m. \<not> system_message m \<and> \<not> blocked_user_message {''bad''} m) ?raw =
             [chat_message ''user'' ''ok'']"
    by (simp add: system_message_def blocked_user_message_def chat_message_def)
  have mem: "chat_message ''user'' ''ok'' \<in> set (windowed [chat_message ''user'' ''ok''])"
    by (simp add: windowed_def)
  note inst = C1_no_system_no_blocked [of decimal ?raw "{''bad''}"]
  have eq: "buildModelInput decimal ?raw {''bad''} =
            buildModelInput decimal [chat_message ''user'' ''ok''] {''bad''}"
    using inst [THEN conjunct1] by (simp only: flt)
  have "\<not> system_message (chat_message ''user'' ''ok'') \<and>
        \<not> blocked_user_message {''bad''} (chat_message ''user'' ''ok'')"
    using inst [THEN conjunct2] loop mem by blast
  with eq loop mem show ?thesis by blast
qed

subsection \<open>Claim C2\<close>

lemma ci_prefix_iff:
  "ci_prefix pat s \<longleftrightarrow> (\<exists>mid post. s = mid @ post \<and> map ascii_lower mid = map ascii_lower pat)"
proof (induction pat s rule: ci_prefix.induct)
  case (1 s)
  show ?case by simp
next
  case (2 p ps)
  show ?case by simp
next
  case (3 p ps c cs)
  show ?case
  proof
    assume "ci_prefix (p # ps) (c # cs)"
    then obtain mid post where "ascii_lower p = ascii_lower c" "cs = mid @ post"
      "map ascii_lower mid = map ascii_lower ps"
      using 3 by auto
    then have "c # cs = (c # mid) @ post \<and> map ascii_lower (c # mid) = map ascii_lower (p # ps)"
      by simp
    then show "\<exists>mid post. c # cs = mid @ post \<and> map ascii_lower mid = map ascii_lower (p # ps)"
      by blast
  next
    assume "\<exists>mid post. c # cs = mid @ post \<and> map ascii_lower mid = map ascii_lower (p # ps)"
    then obtain mid post where m: "c # cs = mid @ post" "map ascii_lower mid = map ascii_lower (p # ps)"
      by blast
    then obtain mid' where "mid = c # mid'"
      by (cases mid) auto
    with m 3 show "ci_prefix (p # ps) (c # cs)"
      by auto
  qed
qed

lemma ci_test_iff: "ci_test pat s \<longleftrightarrow> ci_contains pat s"
proof (induction s)
  case Nil
  show ?case by (auto simp: ci_contains_def ci_prefix_iff)
next
  case (Cons c cs)
  show ?case
  proof
    assume "ci_test pat (c # cs)"
    then consider "ci_prefix pat (c # cs)" | "ci_contains pat cs"
      using Cons by auto
    then show "ci_contains pat (c # cs)"
    proof cases
      case 1
      then obtain mid post where "c # cs = [] @ mid @ post" "map ascii_lower mid = map ascii_lower pat"
        by (auto simp: ci_prefix_iff)
      then show ?thesis unfolding ci_contains_def by blast
    next
      case 2
      then obtain pre mid post where "c # cs = (c # pre) @ mid @ post"
        "map ascii_lower mid = map ascii_lower pat"
        by (auto simp: ci_contains_def)
      then show ?thesis unfolding ci_contains_def by blast
    qed
  next
    assume "ci_contains pat (c # cs)"
    then obtain pre mid post where m: "c # cs = pre @ mid @ post"
      "map ascii_lower mid = map ascii_lower pat"
      by (auto simp: ci_contains_def)
    show "ci_test pat (c # cs)"
    proof (cases pre)
      case Nil
      with m have "ci_prefix pat (c # cs)"
        using ci_prefix_iff by auto
      then show ?thesis by simp
    next
      case (Cons a pre')
      with m have "cs = pre' @ mid @ post" by simp
      with m have "ci_contains pat cs" unfolding ci_contains_def by blast
      then show ?thesis using Cons.IH by simp
    qed
  qed
qed

lemma guardrail_notice_code: "guardrail_notice m \<longleftrightarrow> looksLikeGuardrailNotice m"
  by (auto simp: guardrail_notice_def looksLikeGuardrailNotice_def ci_test_iff is_string_iff)

lemma clean_loop_append:
  "clean_loop blocked cleaned (xs @ ys) =
     (case clean_loop blocked cleaned xs of
        Inl e \<Rightarrow> Inl e
      | Inr c \<Rightarrow> clean_loop blocked c ys)"
  by (induction xs arbitrary: cleaned) (auto split: sum.splits)

lemma clean_step_notice:
  assumes "looksLikeGuardrailNotice m" and "\<forall>x \<in> set cleaned. \<not> nullish x"
  shows "clean_step blocked cleaned m =
         Inr (if cleaned \<noteq> [] \<and> get (last cleaned) ''role'' = JStr ''user''
              then butlast cleaned else cleaned)"
proof -
  have role: "get m ''role'' = JStr ''assistant''"
    using assms(1) by (simp add: looksLikeGuardrailNotice_def)
  then have "\<not> nullish m"
    by (auto simp: get_nullish)
  moreover have "cleaned \<noteq> [] \<Longrightarrow> \<not> nullish (last cleaned)"
    using assms(2) by simp
  ultimately show ?thesis
    using assms(1) role by (simp add: clean_step_def)
qed

text \<open>
  C2. An assistant message whose content contains "blocked by guardrails", whatever the
  case of the letters, is never in the cleaned sequence. When the loop meets one, with
  \<open>c\<close> the cleaned sequence so far, it goes on with \<open>c\<close> without its last entry if that
  entry's role is user, and with \<open>c\<close> itself otherwise, also when \<open>c\<close> is empty: at most
  one entry is removed, and the iteration does not fail.
\<close>

theorem C2_guardrail_notice:
  "(\<forall>cleaned. clean_loop blocked [] raw = Inr cleaned \<longrightarrow>
      (\<forall>m \<in> set cleaned. \<not> guardrail_notice m)) \<and>
   (\<forall>pre m post c.
      raw = pre @ m # post \<and> guardrail_notice m \<and> clean_loop blocked [] pre = Inr c \<longrightarrow>
      clean_loop blocked [] raw =
        clean_loop blocked
          (if c \<noteq> [] \<and> get (last c) ''role'' = JStr ''user'' then butlast c else c) post)"
proof (intro conjI allI impI)
  fix cleaned
  assume "clean_loop blocked [] raw = Inr cleaned"
  then show "\<forall>m \<in> set cleaned. \<not> guardrail_notice m"
    using clean_loop_elems [of blocked "[]" raw cleaned] by (auto simp: guardrail_notice_code)
next
  fix pre m post c
  assume a: "raw = pre @ m # post \<and> guardrail_notice m \<and> clean_loop blocked [] pre = Inr c"
  then have "\<forall>x \<in> set c. \<not> nullish x"
    using clean_loop_elems [of blocked "[]" pre c] by auto
  then have "clean_step blocked c m =
         Inr (if c \<noteq> [] \<and> get (last c) ''role'' = JStr ''user'' then butlast c else c)"
    using a clean_step_notice [of m c blocked] by (simp add: guardrail_notice_code)
  then show "clean_loop blocked [] raw =
        clean_loop blocked
          (if c \<noteq> [] \<and> get (last c) ''role'' = JStr ''user'' then butlast c else c) post"
    using a by (simp add: clean_loop_append)
qed

theorem C2_guardrail_notice_witness:
  "guardrail_notice (chat_message ''assistant'' ''Request Blocked By Guardrails.'') \<and>
   clean_loop {} []
     [chat_message ''user'' ''first'', chat_message ''assistant'' ''reply'',
      chat_message ''user'' ''hi''] =
     Inr [chat_message ''user'' ''first'', chat_message ''assistant'' ''reply'',
          chat_message ''user'' ''hi''] \<and>
   clean_loop {} []
     [chat_message ''user'' ''first'', chat_message ''assistant'' ''reply'',
      chat_message ''user'' ''hi'',
      chat_message ''assistant'' ''Request Blocked By Guardrails.''] =
     Inr [chat_message ''user'' ''first'', chat_message ''assistant'' ''reply''] \<and>
   chat_message ''assistant'' ''reply'' \<in>
     set [chat_message ''user'' ''first'', chat_message ''assistant'' ''reply''] \<and>
   \<not> guardrail_notice (chat_message ''assistant'' ''reply'')"
proof -
  let ?n = "chat_message ''assistant'' ''Request Blocked By Guardrails.''"
  let ?pre = "[chat_message ''user'' ''first'', chat_message ''assistant'' ''reply'',
               chat_message ''user'' ''hi'']"
  let ?out = "[chat_message ''user'' ''first'', chat_message ''assistant'' ''reply'']"
  have "ci_contains ''blocked by guardrails'' ''Request Blocked By Guardrails.''"
    unfolding ci_contains_def
    by (rule exI [of _ "''Request ''"], rule exI [of _ "''Blocked By Guardrails''"],
        rule exI [of _ "''.''"]) (simp add: ascii_lower_def)
  then have notice: "guardrail_notice ?n"
    by (simp add: guardrail_notice_def chat_message_def)
  have pre: "clean_loop {} [] ?pre = Inr ?pre"
    by (simp add: clean_step_def chat_message_def looksLikeGuardrailNotice_def ascii_lower_def)
  have popped: "(if ?pre \<noteq> [] \<and> get (last ?pre) ''role'' = JStr ''user''
                 then butlast ?pre else ?pre) = ?out"
    by (simp add: chat_message_def)
  note inst = C2_guardrail_notice [of "{}" "?pre @ ?n # []"]
  have "clean_loop {} [] (?pre @ ?n # []) =
        clean_loop {}
          (if ?pre \<noteq> [] \<and> get (last ?pre) ''role'' = JStr ''user''
           then butlast ?pre else ?pre) []"
    using inst [THEN conjunct2] notice pre by blast
  then have all: "clean_loop {} [] (?pre @ ?n # []) = Inr ?out"
    by (simp only: popped clean_loop.simps)
  have mem: "chat_message ''assistant'' ''reply'' \<in> set ?out"
    by simp
  have "\<not> guardrail_notice (chat_message ''assistant'' ''reply'')"
    using inst [THEN conjunct1] all mem by blast
  with notice pre all mem show ?thesis
    by simp
qed

subsection \<open>Claim C3\<close>

lemma input_of_buildModelInput:
  "clean_loop blocked [] raw = Inr cleaned \<Longrightarrow>
   input_of (buildModelInput num raw blocked) = format_input num (windowed cleaned)"
  by (simp add: input_of_def buildModelInput_def split: sum.splits)

lemma clean_step_plain:
  "\<not> ci_test ''blocked by guardrails'' c \<Longrightarrow> r \<noteq> ''system'' \<Longrightarrow> c \<notin> blocked \<Longrightarrow>
   clean_step blocked cleaned (chat_message r c) = Inr (cleaned @ [chat_message r c])"
  by (simp add: clean_step_def chat_message_def looksLikeGuardrailNotice_def)

text \<open>
  C3. The input is formatted from the windowed entries, which are never more than 16.
  When the cleaned sequence has more than 16 entries, the windowed entries are exactly
  16 and are the end of the cleaned sequence, in the same order: the cleaned sequence is
  its oldest entries followed by the windowed ones.
\<close>

theorem C3_window:
  "\<forall>cleaned. clean_loop blocked [] raw = Inr cleaned \<longrightarrow>
     input_of (buildModelInput num raw blocked) = format_input num (windowed cleaned) \<and>
     length (windowed cleaned) \<le> 16 \<and>
     (length cleaned > 16 \<longrightarrow>
        length (windowed cleaned) = 16 \<and>
        cleaned = take (length cleaned - 16) cleaned @ windowed cleaned)"
proof (intro allI impI conjI)
  fix cleaned
  assume "clean_loop blocked [] raw = Inr cleaned"
  then show "input_of (buildModelInput num raw blocked) = format_input num (windowed cleaned)"
    by (rule input_of_buildModelInput)
next
  fix cleaned
  show "length (windowed cleaned) \<le> 16"
    by (simp add: windowed_def)
next
  fix cleaned :: "jsval list"
  assume "length cleaned > 16"
  then show "length (windowed cleaned) = 16"
    by (simp add: windowed_def)
next
  fix cleaned :: "jsval list"
  assume "length cleaned > 16"
  then have "windowed cleaned = drop (length cleaned - 16) cleaned"
    by (simp add: windowed_def)
  then show "cleaned = take (length cleaned - 16) cleaned @ windowed cleaned"
    by simp
qed

theorem C3_window_witness:
  "clean_loop {} [] history20 = Inr history20 \<and>
   input_of (buildModelInput decimal history20 {}) = format_input decimal (drop 4 history20) \<and>
   length (windowed history20) = 16 \<and>
   history20 = take 4 history20 @ windowed history20 \<and>
   windowed history20 = drop 4 history20"
proof -
  have loop: "clean_loop {} [] history20 = Inr history20"
    by (simp add: history20_def clean_step_plain ascii_lower_def)
  have len: "length history20 = 20"
    by (simp add: history20_def)
  note inst = C3_window [of "{}" history20 decimal, rule_format, OF loop]
  have eq: "history20 = take 4 history20 @ windowed history20"
    using inst len by simp
  have "take 4 history20 @ windowed history20 = take 4 history20 @ drop 4 history20"
    unfolding append_take_drop_id by (rule eq [symmetric])
  then have w: "windowed history20 = drop 4 history20"
    by (simp only: same_append_eq)
  from inst len loop eq w show ?thesis
    by simp
qed

subsection \<open>Claim C4\<close>

lemma render_chat_message:
  "render num (chat_message r c) =
     Inr (if r = ''user'' then ''User: '' @ c
          else if r = ''assistant'' then ''Assistant: '' @ c else [])"
  by (simp add: render_def chat_message_def)

lemma error_is_TypeError: "(e :: error) = TypeError"
  by (cases e) simp














subsection \<open>Claim C10\<close>

lemma clean_step_other_role:
  "other_role m \<Longrightarrow> clean_step blocked cleaned m = Inr (cleaned @ [m])"
  by (simp add: other_role_def clean_step_def looksLikeGuardrailNotice_def)

lemma clean_loop_other_roles:
  "\<forall>m \<in> set ms. other_role m \<Longrightarrow> clean_loop blocked cleaned ms = Inr (cleaned @ ms)"
  by (induction ms arbitrary: cleaned) (simp_all add: clean_step_other_role)

lemma render_other_role: "other_role m \<Longrightarrow> render num m = Inr []"
  by (simp add: other_role_def render_def)

lemma render_all_other_roles:
  "\<forall>m \<in> set ms. other_role m \<Longrightarrow> render_all num ms = Inr (replicate (length ms) [])"
  by (induction ms) (simp_all add: render_other_role)

lemma other_role_tool: "other_role (chat_message ''tool'' c)"
  by (simp add: other_role_def chat_message_def)

text \<open>
  C10. A message whose role is none of system, user and assistant is appended to the
  cleaned sequence and renders as the empty string. It counts in the window: after a
  user message and 16 such messages the window no longer holds the user message and the
  input is empty, while with 15 of them the user message is still part of the input.
\<close>

theorem C10_other_role_in_window:
  "(\<forall>m cleaned. other_role m \<longrightarrow>
      clean_step blocked cleaned m = Inr (cleaned @ [m]) \<and> render num m = Inr []) \<and>
   clean_loop {} []
     (chat_message ''user'' ''old'' # replicate 16 (chat_message ''tool'' ''x'')) =
     Inr (chat_message ''user'' ''old'' # replicate 16 (chat_message ''tool'' ''x'')) \<and>
   windowed (chat_message ''user'' ''old'' # replicate 16 (chat_message ''tool'' ''x'')) =
     replicate 16 (chat_message ''tool'' ''x'') \<and>
   input_of (buildModelInput num
     (chat_message ''user'' ''old'' # replicate 16 (chat_message ''tool'' ''x'')) {}) =
     Inr (JStr []) \<and>
   input_of (buildModelInput num
     (chat_message ''user'' ''old'' # replicate 15 (chat_message ''tool'' ''x'')) {}) =
     Inr (JStr ''User: old'')"
proof -
  let ?old = "chat_message ''user'' ''old''"
  let ?tool = "chat_message ''tool'' ''x''"
  have old: "clean_step {} [] ?old = Inr [?old]"
    using clean_step_plain [of "''old''" "''user''" "{}" "[]"] by (simp add: ascii_lower_def)
  have loop: "clean_loop {} [] (?old # replicate n ?tool) = Inr (?old # replicate n ?tool)" for n
    by (simp add: old clean_loop_other_roles other_role_tool)
  have w16: "windowed (?old # replicate 16 ?tool) = replicate 16 ?tool"
    by (simp add: windowed_def)
  have w15: "windowed (?old # replicate 15 ?tool) = ?old # replicate 15 ?tool"
    by (simp add: windowed_def)
  have f16: "format_input num (replicate 16 ?tool) = Inr (JStr [])"
    by (simp add: format_input_def render_all_other_roles other_role_tool)
  have f15: "format_input num (?old # replicate 15 ?tool) = Inr (JStr ''User: old'')"
    by (simp add: format_input_def render_all_other_roles other_role_tool render_chat_message)
  have in16: "input_of (buildModelInput num (?old # replicate 16 ?tool) {}) = Inr (JStr [])"
    using input_of_buildModelInput [OF loop [of 16]] by (simp only: w16 f16)
  have in15: "input_of (buildModelInput num (?old # replicate 15 ?tool) {}) =
              Inr (JStr ''User: old'')"
    using input_of_buildModelInput [OF loop [of 15]] by (simp only: w15 f15)
  from clean_step_other_role render_other_role loop [of 16] w16 in16 in15
  show ?thesis by blast
qed

theorem C10_other_role_in_window_witness:
  "other_role (chat_message ''tool'' ''x'') \<and>
   clean_step {} [chat_message ''user'' ''old''] (chat_message ''tool'' ''x'') =
     Inr [chat_message ''user'' ''old'', chat_message ''tool'' ''x''] \<and>
   render decimal (chat_message ''tool'' ''x'') = Inr []"
proof -
  have o: "other_role (chat_message ''tool'' ''x'')"
    by (simp add: other_role_def chat_message_def)
  from C10_other_role_in_window [of "{}" decimal, THEN conjunct1, rule_format, OF o,
      of "[chat_message ''user'' ''old'']"] o
  show ?thesis by simp
qed

subsection \<open>Claim C8\<close>



lemma clean_loop_result:
  "clean_loop blocked [] raw = Inl TypeError \<or> (\<exists>cleaned. clean_loop blocked [] raw = Inr cleaned)"
  by (cases "clean_loop blocked [] raw") (simp_all add: error_is_TypeError)







section \<open>Properties of the response text\<close>

subsection \<open>Claims C6 and C7\<close>

lemma opt_get_eq: "opt_get v k = get v k"
  by (simp add: opt_get_def get_nullish)

lemma get_falsy: "\<not> truthy v \<Longrightarrow> get v k = JUndefined"
  by (cases v) simp_all

lemma get0_falsy: "\<not> truthy v \<Longrightarrow> get0 v = JUndefined"
  by (cases v) simp_all

lemma isArray_iff: "isArray v \<longleftrightarrow> (\<exists>xs. v = JArr xs)"
  by (cases v) simp_all

lemma items_not_array: "\<not> isArray v \<Longrightarrow> items v = []"
  by (cases v) simp_all

text \<open>The search either meets a null or undefined element, or gives what \<^const>\<open>find\<close> gives.\<close>

lemma find_type_cases:
  "find_type t xs =
     (if meets_null t xs then Inl TypeError
      else Inr (case find (\<lambda>item. get item ''type'' = JStr t) xs of
                  None \<Rightarrow> JUndefined
                | Some x \<Rightarrow> x))"
proof (induction xs)
  case Nil
  show ?case by (simp add: meets_null_def)
next
  case (Cons x xs)
  show ?case
  proof (cases "nullish x")
    case True
    then show ?thesis by (simp add: meets_null_def get_nullish)
  next
    case False
    with Cons show ?thesis by (auto simp: meets_null_def)
  qed
qed

lemma find_typed_truthy:
  "find (\<lambda>item. get item ''type'' = JStr t) xs = Some x \<Longrightarrow> truthy x"
proof -
  assume "find (\<lambda>item. get item ''type'' = JStr t) xs = Some x"
  then have "get x ''type'' = JStr t"
    by (auto simp: find_Some_iff)
  then show "truthy x"
    by (cases x) simp_all
qed

text \<open>The text left by the structured path, or the exception.\<close>

lemma structured_text_cases:
  "structured_text resp =
     (if scan_fails resp then Inl TypeError
      else Inr (if truthy (structured_candidate resp) then structured_candidate resp
                else JStr []))"
proof (cases "isArray (get resp ''output'')")
  case False
  then have "items (get resp ''output'') = []"
    by (rule items_not_array)
  with False show ?thesis
    by (simp add: structured_text_def scan_fails_def structured_candidate_def meets_null_def)
next
  case True
  then have out: "truthy (get resp ''output'')"
    by (auto simp: isArray_iff)
  show ?thesis
  proof (cases "meets_null ''message'' (items (get resp ''output''))")
    case mn: True
    with True out show ?thesis
      by (simp add: structured_text_def scan_fails_def find_type_cases)
  next
    case mn: False
    show ?thesis
    proof (cases "find (\<lambda>item. get item ''type'' = JStr ''message'') (items (get resp ''output''))")
      case None
      with True out mn show ?thesis
        by (simp add: structured_text_def scan_fails_def find_type_cases structured_candidate_def)
    next
      case (Some msg)
      have tm: "truthy msg" using find_typed_truthy [OF Some] .
      show ?thesis
      proof (cases "isArray (get msg ''content'')")
        case False
        then have "items (get msg ''content'') = []"
          by (rule items_not_array)
        with False True out mn Some tm show ?thesis
          by (simp add: structured_text_def scan_fails_def find_type_cases
                structured_candidate_def meets_null_def)
      next
        case c: True
        then have tc: "truthy (get msg ''content'')"
          by (auto simp: isArray_iff)
        show ?thesis
        proof (cases "meets_null ''output_text'' (items (get msg ''content''))")
          case True
          with c tc \<open>isArray (get resp ''output'')\<close> out mn Some tm show ?thesis
            by (simp add: structured_text_def scan_fails_def find_type_cases)
        next
          case mc: False
          show ?thesis
          proof (cases "find (\<lambda>item. get item ''type'' = JStr ''output_text'')
                          (items (get msg ''content''))")
            case None
            with mc c tc True out mn Some tm show ?thesis
              by (simp add: structured_text_def scan_fails_def find_type_cases
                    structured_candidate_def)
          next
            case part: (Some part)
            have "truthy part" using find_typed_truthy [OF part] .
            with part mc c tc True out mn Some tm show ?thesis
              by (simp add: structured_text_def scan_fails_def find_type_cases
                    structured_candidate_def)
          qed
        qed
      qed
    qed
  qed
qed

lemma fallback_text_eq:
  "fallback_text resp =
     (case find truthy (tl (candidates resp)) of Some v \<Rightarrow> v | None \<Rightarrow> JStr sentinel)"
proof -
  have a: "\<not> truthy (get resp ''choices'') \<Longrightarrow>
        get (get (get0 (get resp ''choices'')) ''message'') ''content'' = JUndefined"
    by (simp add: get0_falsy)
  have b: "\<not> truthy (get resp ''result'') \<Longrightarrow>
        get (get resp ''result'') ''response'' = JUndefined"
    by (simp add: get_falsy)
  show ?thesis
    using a b by (auto simp: fallback_text_def candidates_def opt_get_eq)
qed

lemma resolution_cases:
  "resolution resp =
     (if truthy (structured_candidate resp) then structured_candidate resp
      else fallback_text resp)"
proof -
  have "candidates resp = structured_candidate resp # tl (candidates resp)"
    by (simp add: candidates_def)
  then have "find truthy (candidates resp) =
      (if truthy (structured_candidate resp) then Some (structured_candidate resp)
       else find truthy (tl (candidates resp)))"
    by (metis find.simps(2))
  then show ?thesis
    by (simp add: resolution_def fallback_text_eq)
qed

text \<open>The whole extraction.\<close>

lemma extract_cases:
  "extract_responseText aiResponse =
     (if is_string aiResponse then Inr aiResponse
      else if is_object aiResponse then
        (if scan_fails aiResponse then Inl TypeError else Inr (resolution aiResponse))
      else Inr (JStr []))"
  by (simp add: extract_responseText_def is_object_def structured_text_cases resolution_cases)

lemma is_object_not_string: "is_object v \<Longrightarrow> \<not> is_string v"
  by (cases v) (simp_all add: is_object_def)

text \<open>
  C6 as stated fails: the output list starts with null, so the search for the message
  element throws, and the extraction does not fall back to the response field, which is
  the first truthy candidate.
\<close>

theorem C6_counterexample:
  "is_object (JObj [(''output'', JArr [JNull]), (''response'', JStr ''legacy'')]) \<and>
   extract_responseText (JObj [(''output'', JArr [JNull]), (''response'', JStr ''legacy'')]) =
     Inl TypeError \<and>
   resolution (JObj [(''output'', JArr [JNull]), (''response'', JStr ''legacy'')]) =
     JStr ''legacy''"
  by (simp add: is_object_def extract_responseText_def structured_text_def resolution_def
        candidates_def structured_candidate_def)

text \<open>
  C6, amended. A plain string is returned as it is. For an object, when the search of the
  output list for the message element, and the search of that element's content list for
  the output_text element, meet no null or undefined element, the text is the first truthy
  candidate in the order: the text of the structured path (first output element of type
  message, first of its content elements of type output_text), then response, content,
  choices[0].message.content and result.response. When a search meets a null or
  undefined element, the extraction throws a TypeError.
\<close>

theorem C6_resolution_order:
  "extract_responseText (JStr s) = Inr (JStr s) \<and>
   (is_object result \<longrightarrow>
      extract_responseText result =
        (if scan_fails result then Inl TypeError else Inr (resolution result)))"
  using is_object_not_string [of result] by (simp add: extract_cases)

theorem C6_resolution_order_witness:
  "is_object (JObj [(''output'', JArr
      [JObj [(''type'', JStr ''reasoning''), (''content'', JArr [JNull])],
       JObj [(''type'', JStr ''message''),
             (''content'', JArr [JObj [(''type'', JStr ''output_text''),
                                       (''text'', JStr ''answer'')], JNull])],
       JNull]),
     (''response'', JStr ''legacy'')]) \<and>
   \<not> scan_fails (JObj [(''output'', JArr
      [JObj [(''type'', JStr ''reasoning''), (''content'', JArr [JNull])],
       JObj [(''type'', JStr ''message''),
             (''content'', JArr [JObj [(''type'', JStr ''output_text''),
                                       (''text'', JStr ''answer'')], JNull])],
       JNull]),
     (''response'', JStr ''legacy'')]) \<and>
   extract_responseText (JObj [(''output'', JArr
      [JObj [(''type'', JStr ''reasoning''), (''content'', JArr [JNull])],
       JObj [(''type'', JStr ''message''),
             (''content'', JArr [JObj [(''type'', JStr ''output_text''),
                                       (''text'', JStr ''answer'')], JNull])],
       JNull]),
     (''response'', JStr ''legacy'')]) = Inr (JStr ''answer'') \<and>
   is_object (JObj [(''output'', JArr [JObj [(''type'', JStr ''reasoning'')]]),
                    (''content'', JStr ''second''),
                    (''result'', JObj [(''response'', JStr ''last'')])]) \<and>
   extract_responseText
     (JObj [(''output'', JArr [JObj [(''type'', JStr ''reasoning'')]]),
            (''content'', JStr ''second''),
            (''result'', JObj [(''response'', JStr ''last'')])]) = Inr (JStr ''second'') \<and>
   is_object (JObj [(''output'', JArr [JObj [(''type'', JStr ''message''),
                                             (''content'', JArr [JNull])]]),
                    (''response'', JStr ''legacy'')]) \<and>
   scan_fails (JObj [(''output'', JArr [JObj [(''type'', JStr ''message''),
                                              (''content'', JArr [JNull])]]),
                     (''response'', JStr ''legacy'')]) \<and>
   extract_responseText
     (JObj [(''output'', JArr [JObj [(''type'', JStr ''message''),
                                     (''content'', JArr [JNull])]]),
            (''response'', JStr ''legacy'')]) = Inl TypeError"
proof -
  let ?v = "JObj [(''output'', JArr
      [JObj [(''type'', JStr ''reasoning''), (''content'', JArr [JNull])],
       JObj [(''type'', JStr ''message''),
             (''content'', JArr [JObj [(''type'', JStr ''output_text''),
                                       (''text'', JStr ''answer'')], JNull])],
       JNull]),
     (''response'', JStr ''legacy'')]"
  let ?w = "JObj [(''output'', JArr [JObj [(''type'', JStr ''reasoning'')]]),
                  (''content'', JStr ''second''),
                  (''result'', JObj [(''response'', JStr ''last'')])]"
  let ?x = "JObj [(''output'', JArr [JObj [(''type'', JStr ''message''),
                                           (''content'', JArr [JNull])]]),
                  (''response'', JStr ''legacy'')]"
  have v: "is_object ?v" "\<not> scan_fails ?v"
    by (simp_all add: is_object_def scan_fails_def meets_null_def)
  have rv: "resolution ?v = JStr ''answer''"
    by (simp add: resolution_def candidates_def structured_candidate_def)
  have w: "is_object ?w" "\<not> scan_fails ?w"
    by (simp_all add: is_object_def scan_fails_def meets_null_def)
  have rw: "resolution ?w = JStr ''second''"
    by (simp add: resolution_def candidates_def structured_candidate_def opt_get_def)
  have x: "is_object ?x" "scan_fails ?x"
    by (simp_all add: is_object_def scan_fails_def meets_null_def)
  have "extract_responseText ?v = Inr (resolution ?v)"
    using C6_resolution_order [of _ ?v, THEN conjunct2] v by simp
  then have ev: "extract_responseText ?v = Inr (JStr ''answer'')"
    by (simp only: rv)
  have "extract_responseText ?w = Inr (resolution ?w)"
    using C6_resolution_order [of _ ?w, THEN conjunct2] w by simp
  then have ew: "extract_responseText ?w = Inr (JStr ''second'')"
    by (simp only: rw)
  have ex: "extract_responseText ?x = Inl TypeError"
    using C6_resolution_order [of _ ?x, THEN conjunct2] x by simp
  from v ev w ew x ex show ?thesis by blast
qed




section \<open>Properties of the catch block\<close>

subsection \<open>Claims C5 and C9\<close>

lemma match_braces_nonempty: "match_braces msg = Some js \<Longrightarrow> msg \<noteq> []"
  by (cases msg) simp_all

lemma get_code_truthy: "get g ''code'' = JNum n \<Longrightarrow> truthy g"
  by (cases g) simp_all

lemma gatewayError_carries:
  "(truthy (gatewayError_of json_parse error) \<and>
    get (gatewayError_of json_parse error) ''code'' = JNum n) \<longleftrightarrow>
   carries_code json_parse error n"
proof
  assume a: "truthy (gatewayError_of json_parse error) \<and>
    get (gatewayError_of json_parse error) ''code'' = JNum n"
  then have ne: "gatewayError_of json_parse error \<noteq> JNull"
    by auto
  then obtain msg where msg: "get error ''message'' = JStr msg"
    by (auto simp: gatewayError_of_def is_string_iff split: if_splits)
  with ne obtain jsonMatch where jm: "match_braces msg = Some jsonMatch"
    by (auto simp: gatewayError_of_def split: if_splits option.splits)
  with ne msg obtain parsed where pa: "json_parse jsonMatch = Some parsed"
    by (auto simp: gatewayError_of_def split: if_splits option.splits)
  with ne msg jm obtain xs where xs: "get parsed ''error'' = JArr xs"
    by (auto simp: gatewayError_of_def isArray_iff split: if_splits)
  with msg jm pa have g: "gatewayError_of json_parse error = get0 (JArr xs)"
    using match_braces_nonempty [OF jm]
    by (auto simp: gatewayError_of_def get_nullish)
  with a obtain first rest where "xs = first # rest"
    by (cases xs) auto
  with g a msg jm pa xs show "carries_code json_parse error n"
    unfolding carries_code_def by auto
next
  assume "carries_code json_parse error n"
  then obtain msg jsonMatch parsed first rest where
    c: "get error ''message'' = JStr msg" "match_braces msg = Some jsonMatch"
       "json_parse jsonMatch = Some parsed" "get parsed ''error'' = JArr (first # rest)"
       "get first ''code'' = JNum n"
    unfolding carries_code_def by blast
  have "\<not> nullish parsed"
    using c(4) by (auto simp: get_nullish)
  then have "gatewayError_of json_parse error = first"
    using c match_braces_nonempty [OF c(2)] by (simp add: gatewayError_of_def)
  then show "truthy (gatewayError_of json_parse error) \<and>
    get (gatewayError_of json_parse error) ''code'' = JNum n"
    using c(5) get_code_truthy by simp
qed

lemma carries_code_object: "carries_code json_parse error n \<Longrightarrow> truthy error \<and> typeof_object error"
  by (cases error) (auto simp: carries_code_def)

lemma responses_distinct:
  "prompt_blocked_response \<noteq> response_blocked_response"
  "prompt_blocked_response \<noteq> generic_response"
  "response_blocked_response \<noteq> generic_response"
  by (simp_all add: prompt_blocked_response_def response_blocked_response_def
        generic_response_def)

lemma catch_cases:
  "handleChatRequest_catch json_parse error =
     (if carries_code json_parse error 2016 then prompt_blocked_response
      else if carries_code json_parse error 2017 then response_blocked_response
      else generic_response)"
proof (cases "truthy error \<and> typeof_object error")
  case True
  then show ?thesis
    using gatewayError_carries [of json_parse error 2016]
      gatewayError_carries [of json_parse error 2017]
    by (auto simp: handleChatRequest_catch_def Let_def)
next
  case False
  then have "\<not> carries_code json_parse error n" for n
    using carries_code_object by blast
  with False show ?thesis
    by (auto simp: handleChatRequest_catch_def)
qed

lemma match_prefixed:
  "match_braces (''AiError: '' @ blocked_json) = Some blocked_json"
  by (simp add: blocked_json_def upto_last_brace_def line_terminator_def)

lemma carries_sample:
  "carries_code sample_parse (JObj [(''message'', JStr (''AiError: '' @ blocked_json))]) 2016"
proof -
  let ?first = "JObj [(''code'', JNum 2016), (''message'', JStr ''x'')]"
  have "get (JObj [(''message'', JStr (''AiError: '' @ blocked_json))]) ''message'' =
        JStr (''AiError: '' @ blocked_json)"
    by simp
  moreover have "sample_parse blocked_json = Some blocked_value"
    by (simp add: sample_parse_def)
  moreover have "get blocked_value ''error'' = JArr (?first # [])"
    by (simp add: blocked_value_def)
  moreover have "get ?first ''code'' = JNum 2016"
    by simp
  ultimately show ?thesis
    unfolding carries_code_def using match_prefixed by blast
qed

lemma no_match_plain: "match_braces ''plain failure, no json'' = None"
  by simp

lemma carries_plain:
  "\<not> carries_code json_parse (JObj [(''message'', JStr ''plain failure, no json'')]) n"
  by (simp add: carries_code_def no_match_plain)

text \<open>
  C5 as stated fails: the message below contains the JSON text of a prompt block, which
  parses to an object whose error array starts with code 2016, but the match of the
  regular expression starts at an earlier brace and is not JSON, so that the response is
  the generic one.
\<close>

theorem C5_counterexample:
  "handleChatRequest_catch sample_parse
     (JObj [(''message'', JStr (''gateway {\"id\":7} said '' @ blocked_json))]) =
     generic_response \<and>
   sample_parse blocked_json = Some blocked_value \<and>
   get blocked_value ''error'' =
     JArr [JObj [(''code'', JNum 2016), (''message'', JStr ''x'')]] \<and>
   get (JObj [(''code'', JNum 2016), (''message'', JStr ''x'')]) ''code'' = JNum 2016"
proof -
  have m: "match_braces (''gateway {\"id\":7} said '' @ blocked_json) =
           Some (''{\"id\":7} said '' @ blocked_json)"
    by (simp add: blocked_json_def upto_last_brace_def line_terminator_def)
  have "sample_parse (''{\"id\":7} said '' @ blocked_json) = None"
    by (simp add: sample_parse_def)
  with m have "gatewayError_of sample_parse
     (JObj [(''message'', JStr (''gateway {\"id\":7} said '' @ blocked_json))]) = JNull"
    by (simp add: gatewayError_of_def del: match_braces.simps)
  then have "handleChatRequest_catch sample_parse
     (JObj [(''message'', JStr (''gateway {\"id\":7} said '' @ blocked_json))]) =
     generic_response"
    by (simp add: handleChatRequest_catch_def)
  then show ?thesis
    by (simp add: sample_parse_def blocked_value_def)
qed

text \<open>
  C5, amended. The response is the prompt_blocked one (status 400) exactly when the caught
  value's message is a string in which the match of \<^verbatim>\<open>/\{.*\}/\<close> parses to a value whose
  error field is an array whose first element has code 2016, the response_blocked one
  (status 400) exactly when that code is 2017, and the generic one (status 500) in every
  other case. The catch block always gives a response: a parser exception is a case of
  the third kind.
\<close>

theorem C5_classification:
  "(handleChatRequest_catch json_parse error = prompt_blocked_response \<longleftrightarrow>
      carries_code json_parse error 2016) \<and>
   (handleChatRequest_catch json_parse error = response_blocked_response \<longleftrightarrow>
      carries_code json_parse error 2017) \<and>
   (\<not> carries_code json_parse error 2016 \<and> \<not> carries_code json_parse error 2017 \<longrightarrow>
      handleChatRequest_catch json_parse error = generic_response) \<and>
   status prompt_blocked_response = 400 \<and>
   map_of (body prompt_blocked_response) ''errorType'' = Some (JStr ''prompt_blocked'') \<and>
   status response_blocked_response = 400 \<and>
   map_of (body response_blocked_response) ''errorType'' = Some (JStr ''response_blocked'') \<and>
   status generic_response = 500 \<and>
   body generic_response = [(''error'', JStr ''Failed to process request'')]"
proof -
  have "\<not> (carries_code json_parse error 2016 \<and> carries_code json_parse error 2017)"
    by (auto simp: carries_code_def)
  then show ?thesis
    using responses_distinct
    by (auto simp: catch_cases)
       (simp_all add: prompt_blocked_response_def response_blocked_response_def
          generic_response_def)
qed

theorem C5_classification_witness:
  "carries_code sample_parse (JObj [(''message'', JStr (''AiError: '' @ blocked_json))]) 2016 \<and>
   handleChatRequest_catch sample_parse
     (JObj [(''message'', JStr (''AiError: '' @ blocked_json))]) = prompt_blocked_response \<and>
   \<not> carries_code sample_parse (JObj [(''message'', JStr ''plain failure, no json'')]) 2016 \<and>
   \<not> carries_code sample_parse (JObj [(''message'', JStr ''plain failure, no json'')]) 2017 \<and>
   handleChatRequest_catch sample_parse
     (JObj [(''message'', JStr ''plain failure, no json'')]) = generic_response"
proof -
  let ?e1 = "JObj [(''message'', JStr (''AiError: '' @ blocked_json))]"
  let ?e2 = "JObj [(''message'', JStr ''plain failure, no json'')]"
  have a: "handleChatRequest_catch sample_parse ?e1 = prompt_blocked_response"
    using C5_classification [of sample_parse ?e1, THEN conjunct1] carries_sample by blast
  have b: "handleChatRequest_catch sample_parse ?e2 = generic_response"
    using C5_classification [of sample_parse ?e2, THEN conjunct2, THEN conjunct2, THEN conjunct1]
      carries_plain by blast
  from a b carries_sample carries_plain show ?thesis by blast
qed

text \<open>
  C9. AI_GATEWAY_ID is not empty, so a response of status 400 has usingGateway true and the
  gateway variant of one of the two details texts, and no response carries a details
  text of the other variant.
\<close>

theorem C9_gateway_variant:
  "AI_GATEWAY_ID \<noteq> [] \<and>
   (status (handleChatRequest_catch json_parse error) = 400 \<longrightarrow>
      map_of (body (handleChatRequest_catch json_parse error)) ''usingGateway'' =
        Some (JBool True) \<and>
      (map_of (body (handleChatRequest_catch json_parse error)) ''details'' =
         Some (JStr prompt_details_gateway) \<or>
       map_of (body (handleChatRequest_catch json_parse error)) ''details'' =
         Some (JStr response_details_gateway))) \<and>
   map_of (body (handleChatRequest_catch json_parse error)) ''details'' \<noteq>
     Some (JStr prompt_details_direct) \<and>
   map_of (body (handleChatRequest_catch json_parse error)) ''details'' \<noteq>
     Some (JStr response_details_direct)"
  by (simp add: catch_cases prompt_blocked_response_def response_blocked_response_def
        generic_response_def AI_GATEWAY_ID_def prompt_details_gateway_def
        prompt_details_direct_def response_details_gateway_def response_details_direct_def)

theorem C9_gateway_variant_witness:
  "status (handleChatRequest_catch sample_parse
     (JObj [(''message'', JStr (''AiError: '' @ blocked_json))])) = 400 \<and>
   map_of (body (handleChatRequest_catch sample_parse
     (JObj [(''message'', JStr (''AiError: '' @ blocked_json))]))) ''usingGateway'' =
     Some (JBool True) \<and>
   map_of (body (handleChatRequest_catch sample_parse
     (JObj [(''message'', JStr (''AiError: '' @ blocked_json))]))) ''details'' =
     Some (JStr prompt_details_gateway)"
proof -
  let ?e1 = "JObj [(''message'', JStr (''AiError: '' @ blocked_json))]"
  have r: "handleChatRequest_catch sample_parse ?e1 = prompt_blocked_response"
    using carries_sample by (simp add: catch_cases)
  then have st: "status (handleChatRequest_catch sample_parse ?e1) = 400"
    by (simp add: prompt_blocked_response_def)
  have ug: "map_of (body (handleChatRequest_catch sample_parse ?e1)) ''usingGateway'' =
        Some (JBool True)"
    using C9_gateway_variant [of sample_parse ?e1, THEN conjunct2, THEN conjunct1] st by blast
  have "map_of (body prompt_blocked_response) ''details'' = Some (JStr prompt_details_gateway)"
    by (simp add: prompt_blocked_response_def AI_GATEWAY_ID_def)
  then have "map_of (body (handleChatRequest_catch sample_parse ?e1)) ''details'' =
        Some (JStr prompt_details_gateway)"
    by (simp only: r)
  with st ug show ?thesis by blast
qed

end
